theory Spec2Isabelle
  imports Main "HOL-Library.Char_ord" "HOL-Library.List_Lexorder" "HOL-Library.Multiset"
begin

section \<open>Values, keys and objects\<close>

text \<open>
  Python objects with identity live in a store and are named by their address.
  Numbers are modelled as integers (no claim depends on fractions or rounding).
  A function object (an operator or a sampling function) is compared and hashed by
  identity, so it is represented by an identifier.
\<close>

type_synonym addr = nat

datatype fn = Fn nat

text \<open>What \<open>~node\<close> yields: a number, a numpy array (an object: identity and elements), or
  the sentinel \<open>Empty.empty\<close>.\<close>

datatype pyval = Number int | Array nat "int list" | EmptyVal

text \<open>What the attribute \<open>Value.value\<close> holds, and what \<open>_mark_constancy\<close> and \<open>_bfs\<close> take:
  a raw number, a reference to a \<open>Resolveable\<close> object, or the sentinel \<open>_empty\<close>.\<close>

datatype content = Num int | Ref addr | Empty

text \<open>
  The result of a \<open>cache_key\<close> property. \<open>Value.cache_key\<close> returns the raw content when it
  is not a node, so a key is a number, the sentinel, or the frozen dataclass
  \<open>CacheKey(function, args, kwargs, sample_count, nested)\<close>, every field \<open>None\<close> by default.
\<close>

datatype key =
    KeyNum int
  | KeyEmpty
  | CacheKey "fn option" "int list option" "(string \<times> int) list option" "int option"
      "key list option"

text \<open>
  The four classes. \<open>Value(value, constant, name)\<close>; \<open>Operation(function, this, other)\<close>,
  whose last slot is the attribute \<open>constant\<close> that the analysis attaches dynamically
  (absent at construction); \<open>Distribution(function, args, kwargs)\<close> with \<open>constant\<close> (the class
  attribute \<open>True\<close> unless assigned) and \<open>name\<close>; \<open>Mixture(values)\<close> with \<open>constant\<close> and \<open>name\<close>.
  Keyword arguments are a dict: an association list in insertion order.
\<close>

datatype obj =
    Value content "bool option" "string option"
  | Operation fn addr addr "bool option"
  | Distribution fn "int list" "(string \<times> int) list" "bool option" "string option"
  | Mixture "addr list" "bool option" "string option"

datatype error =
    TypeError | ZeroDivisionError | RecursionError | ValueError | AttributeError
  | KeyError | AssertionError | InvalidReference | External nat

section \<open>The execution context (context.py)\<close>

text \<open>
  A \<open>SwungdashContext\<close> instance. The program never assigns to its fields, so an instance
  is its identity \<open>ident\<close> together with its field values; \<open>cache\<close> is a reference to a
  dict object in the store, which is mutated and shared.
\<close>

record swungdash_context =
  ident :: nat
  cache :: addr
  cache_rule :: string
  sample_count :: int

text \<open>The keyword arguments of \<open>Context(**kwargs)\<close>, restricted to the dataclass fields.\<close>

record overrides =
  new_cache :: "addr option"
  new_cache_rule :: "string option"
  new_sample_count :: "int option"

definition no_overrides :: overrides where
  "no_overrides = \<lparr>new_cache = None, new_cache_rule = None, new_sample_count = None\<rparr>"

text \<open>
  A \<open>Context\<close> manager object: the keywords it was built with and the two attributes
  \<open>saved_context\<close> and \<open>new_context\<close>, both \<open>None\<close> until \<open>__enter__\<close> assigns them.
\<close>

record manager =
  kwargs :: overrides
  saved_context :: "swungdash_context option"
  new_context :: "swungdash_context option"

text \<open>
  The store: node objects and manager objects (address = index, allocation appends),
  dict objects, the \<open>ContextVar\<close> (\<open>None\<close> while never set, otherwise the value it holds,
  which is a context or Python's \<open>None\<close>), allocation counters for contexts, dicts and
  arrays, and the state of the random source.
\<close>

record state =
  objs :: "obj list"
  dicts :: "addr \<Rightarrow> (key \<rightharpoonup> pyval)"
  managers :: "manager list"
  context_var :: "swungdash_context option option"
  next_context :: nat
  next_dict :: nat
  next_array :: nat
  entropy :: nat

type_synonym 'a run = "state \<Rightarrow> (error + 'a) \<times> state"

definition py_return :: "'a \<Rightarrow> 'a run" where
  "py_return x s = (Inr x, s)"

definition py_raise :: "error \<Rightarrow> 'a run" where
  "py_raise e s = (Inl e, s)"

definition py_bind :: "'a run \<Rightarrow> ('a \<Rightarrow> 'b run) \<Rightarrow> 'b run" where
  "py_bind m f s = (case m s of (Inl e, s') \<Rightarrow> (Inl e, s') | (Inr x, s') \<Rightarrow> f x s')"

definition py_lift :: "error + 'a \<Rightarrow> 'a run" where
  "py_lift r s = (r, s)"

definition DEFAULT_SAMPLE_COUNT :: int where
  "DEFAULT_SAMPLE_COUNT = 1000"

text \<open>\<open>Context.getcontext\<close>: what the variable holds; when it was never set, a default
  \<open>SwungdashContext()\<close> with a new empty dict is created and installed.\<close>

definition getcontext :: "state \<Rightarrow> swungdash_context option \<times> state" where
  "getcontext s =
     (case context_var s of
        Some v \<Rightarrow> (v, s)
      | None \<Rightarrow>
          (let c = \<lparr>ident = next_context s, cache = next_dict s,
                    cache_rule = ''constant'', sample_count = DEFAULT_SAMPLE_COUNT\<rparr>
           in (Some c, s\<lparr>dicts := (dicts s)(next_dict s := Map.empty),
                         next_dict := Suc (next_dict s),
                         next_context := Suc (next_context s),
                         context_var := Some (Some c)\<rparr>)))"

definition setcontext :: "swungdash_context option \<Rightarrow> state \<Rightarrow> state" where
  "setcontext v s = s\<lparr>context_var := Some v\<rparr>"

text \<open>\<open>Context(**kw)\<close>: a new manager object.\<close>

definition Context :: "overrides \<Rightarrow> state \<Rightarrow> addr \<times> state" where
  "Context kw s =
     (length (managers s),
      s\<lparr>managers := managers s @ [\<lparr>kwargs = kw, saved_context = None, new_context = None\<rparr>]\<rparr>)"

text \<open>
  \<open>Context.__enter__\<close> on the manager at address \<open>m\<close>. It assigns \<open>self.saved_context\<close>,
  builds the new instance from the saved one's fields overridden by the keywords
  (\<open>vars\<close> raises \<open>TypeError\<close> when the variable holds \<open>None\<close>), assigns
  \<open>self.new_context\<close>, installs the new instance and returns it.
\<close>

definition enter :: "addr \<Rightarrow> swungdash_context run" where
  "enter m s =
     (if m < length (managers s) then
        (case getcontext s of (saved, s1) \<Rightarrow>
           (let s2 = s1\<lparr>managers := (managers s1)[m := (managers s1 ! m)\<lparr>saved_context := saved\<rparr>]\<rparr>
            in case saved of
                 None \<Rightarrow> (Inl TypeError, s2)
               | Some sv \<Rightarrow>
                   (let kw = kwargs (managers s2 ! m);
                        new = \<lparr>ident = next_context s2,
                               cache = (case new_cache kw of Some d \<Rightarrow> d | None \<Rightarrow> cache sv),
                               cache_rule =
                                 (case new_cache_rule kw of Some r \<Rightarrow> r | None \<Rightarrow> cache_rule sv),
                               sample_count =
                                 (case new_sample_count kw of Some n \<Rightarrow> n
                                  | None \<Rightarrow> sample_count sv)\<rparr>;
                        s3 = s2\<lparr>managers :=
                                  (managers s2)[m := (managers s2 ! m)\<lparr>new_context := Some new\<rparr>],
                                next_context := Suc (next_context s2)\<rparr>
                    in (Inr new, setcontext (Some new) s3))))
      else (Inl InvalidReference, s))"

text \<open>\<open>Context.__exit__\<close>: install what \<open>self.saved_context\<close> holds now. It returns \<open>None\<close>,
  so an exception raised in the body propagates.\<close>

definition exit :: "addr \<Rightarrow> state \<Rightarrow> state" where
  "exit m s = (if m < length (managers s) then setcontext (saved_context (managers s ! m)) s else s)"

text \<open>\<open>with m as context: body\<close> for a manager object \<open>m\<close>. When \<open>__enter__\<close> raises, the
  body and \<open>__exit__\<close> do not run; otherwise the body's outcome, a value or an exception,
  is the outcome of the statement.\<close>

definition with_manager :: "addr \<Rightarrow> (swungdash_context \<Rightarrow> 'a run) \<Rightarrow> 'a run" where
  "with_manager m body s =
     (case enter m s of
        (Inl e, s1) \<Rightarrow> (Inl e, s1)
      | (Inr new, s1) \<Rightarrow> (case body new s1 of (r, s2) \<Rightarrow> (r, exit m s2)))"

text \<open>\<open>with Context(**kw) as context: body\<close>, the form every use in the repository has:
  the manager is created by the statement itself.\<close>

definition with_Context :: "overrides \<Rightarrow> (swungdash_context \<Rightarrow> 'a run) \<Rightarrow> 'a run" where
  "with_Context kw body s = (case Context kw s of (m, s0) \<Rightarrow> with_manager m body s0)"

text \<open>Dict operations on the cache of a context: \<open>key in cache\<close>, \<open>cache[key]\<close>,
  \<open>cache[key] = value\<close>.\<close>

definition cache_lookup :: "swungdash_context \<Rightarrow> key \<Rightarrow> state \<Rightarrow> pyval option" where
  "cache_lookup c k s = dicts s (cache c) k"

definition cache_store :: "swungdash_context \<Rightarrow> key \<Rightarrow> pyval \<Rightarrow> unit run" where
  "cache_store c k v s = (Inr (), s\<lparr>dicts := (dicts s)(cache c := (dicts s (cache c))(k \<mapsto> v))\<rparr>)"

section \<open>The node model and resolution (tree.py)\<close>

definition obj_at :: "state \<Rightarrow> addr \<Rightarrow> obj option" where
  "obj_at s a = (if a < length (objs s) then Some (objs s ! a) else None)"

text \<open>A constructor call or \<open>copy\<close> allocates a new object.\<close>

definition new_obj :: "obj \<Rightarrow> addr run" where
  "new_obj ob s = (Inr (length (objs s)), s\<lparr>objs := objs s @ [ob]\<rparr>)"

text \<open>
  The external collaborators: the sampling functions, called as
  \<open>function(*args, size=n, **kwargs)\<close> at a state of the random source and returning the
  elements of a new array or raising; the operators of module \<open>operator\<close>, unary and binary;
  and the random source behind \<open>random.sample\<close>.
\<close>

record externals =
  sampler :: "fn \<Rightarrow> int list \<Rightarrow> (string \<times> int) list \<Rightarrow> int \<Rightarrow> nat \<Rightarrow> error + int list"
  apply1 :: "fn \<Rightarrow> pyval \<Rightarrow> error + pyval"
  apply2 :: "fn \<Rightarrow> pyval \<Rightarrow> pyval \<Rightarrow> error + pyval"
  randbelow :: "nat \<Rightarrow> nat \<Rightarrow> nat"

text \<open>\<open>self.function(*self.args, size=n, **self.kwargs)\<close>: a keyword \<open>size\<close> among the stored
  keywords is passed twice, which raises \<open>TypeError\<close> before the function runs; otherwise
  the function runs, and what it returns is a new array object.\<close>

definition call_sampler ::
  "externals \<Rightarrow> fn \<Rightarrow> int list \<Rightarrow> (string \<times> int) list \<Rightarrow> int \<Rightarrow> pyval run" where
  "call_sampler ext f args kwds n s =
     (if ''size'' \<in> set (map fst kwds) then (Inl TypeError, s)
      else case sampler ext f args kwds n (entropy s) of
             Inl e \<Rightarrow> (Inl e, s\<lparr>entropy := Suc (entropy s)\<rparr>)
           | Inr xs \<Rightarrow> (Inr (Array (next_array s) xs),
                         s\<lparr>next_array := Suc (next_array s), entropy := Suc (entropy s)\<rparr>))"

text \<open>\<open>context.cache[key]\<close>.\<close>

definition cache_get :: "swungdash_context \<Rightarrow> key \<Rightarrow> pyval run" where
  "cache_get c k s = (case cache_lookup c k s of Some v \<Rightarrow> (Inr v, s) | None \<Rightarrow> (Inl KeyError, s))"

fun py_map :: "('a \<Rightarrow> 'b run) \<Rightarrow> 'a list \<Rightarrow> 'b list run" where
  "py_map f [] = py_return []"
| "py_map f (x # xs) = py_bind (f x) (\<lambda>y. py_bind (py_map f xs) (\<lambda>ys. py_return (y # ys)))"

text \<open>\<open>Distribution.cache_key\<close>. \<open>sorted(self.kwargs.items())\<close> orders the items by their
  keys, which are distinct in a dict.\<close>

definition Distribution_cache_key :: "fn \<Rightarrow> int list \<Rightarrow> (string \<times> int) list \<Rightarrow> key run" where
  "Distribution_cache_key f args kwds =
     with_Context no_overrides (\<lambda>context.
       py_return (CacheKey (Some f) (Some args) (Some (sort_key fst kwds))
                    (Some (sample_count context)) None))"

text \<open>\<open>dataclasses.replace(k, sample_count=n)\<close> raises \<open>TypeError\<close> on anything that is not a
  dataclass instance.\<close>

fun replace_sample_count :: "key \<Rightarrow> int option \<Rightarrow> error + key" where
  "replace_sample_count (CacheKey f a kw n ns) n' = Inr (CacheKey f a kw n' ns)"
| "replace_sample_count (KeyNum x) n' = Inl TypeError"
| "replace_sample_count KeyEmpty n' = Inl TypeError"

text \<open>\<open>Mixture.cache_key\<close>, given the \<open>cache_key\<close> property of the components.\<close>

definition Mixture_cache_key :: "(addr \<Rightarrow> key run) \<Rightarrow> addr list \<Rightarrow> key run" where
  "Mixture_cache_key key_of values =
     with_Context no_overrides (\<lambda>context.
       py_bind (py_map (\<lambda>value. py_bind (key_of value)
                          (\<lambda>k. py_lift (replace_sample_count k None))) values)
         (\<lambda>nested. py_return (CacheKey None None None (Some (sample_count context))
                                (Some nested))))"

text \<open>
  The property \<open>cache_key\<close> of an object, by class. The first argument bounds the depth of
  the recursion, as the interpreter's recursion limit does.
\<close>

primrec cache_key :: "nat \<Rightarrow> addr \<Rightarrow> key run" where
  "cache_key 0 a = py_raise RecursionError"
| "cache_key (Suc fuel) a = (\<lambda>s.
     case obj_at s a of
       None \<Rightarrow> py_raise InvalidReference s
     | Some (Value v c n) \<Rightarrow>
         (case v of
            Ref r \<Rightarrow> cache_key fuel r s
          | Num x \<Rightarrow> py_return (KeyNum x) s
          | Empty \<Rightarrow> py_return KeyEmpty s)
     | Some (Operation f this other c) \<Rightarrow>
         py_bind (cache_key fuel this) (\<lambda>this_key.
         py_bind (cache_key fuel other) (\<lambda>other_key.
         py_return (CacheKey (Some f) None None None (Some [this_key, other_key])))) s
     | Some (Distribution f args kwds c n) \<Rightarrow> Distribution_cache_key f args kwds s
     | Some (Mixture values c n) \<Rightarrow> Mixture_cache_key (cache_key fuel) values s)"

text \<open>\<open>Distribution._resolve\<close>. Every evaluation of \<open>self.cache_key\<close> is a call.\<close>

definition Distribution_resolve ::
  "externals \<Rightarrow> fn \<Rightarrow> int list \<Rightarrow> (string \<times> int) list \<Rightarrow> pyval run" where
  "Distribution_resolve ext f args kwds =
     with_Context no_overrides (\<lambda>context.
       py_bind (Distribution_cache_key f args kwds) (\<lambda>k1 s.
         case cache_lookup context k1 s of
           Some _ \<Rightarrow>
             py_bind (Distribution_cache_key f args kwds) (\<lambda>k2. cache_get context k2) s
         | None \<Rightarrow>
             py_bind (call_sampler ext f args kwds (sample_count context)) (\<lambda>value.
             py_bind (Distribution_cache_key f args kwds) (\<lambda>k3.
             py_bind (cache_store context k3 value) (\<lambda>_. py_return value))) s))"

text \<open>
  \<open>random.sample(population, len(population))\<close>: the selection from a pool that the
  library runs when the whole population is drawn. With \<open>m\<close> draws left, \<open>j\<close> is drawn
  below \<open>m\<close>, \<open>pool[j]\<close> is the next result and the last item still in play takes its
  place. \<open>rnd m\<close> is the draw below \<open>m\<close>.
\<close>

primrec draw :: "(nat \<Rightarrow> nat) \<Rightarrow> nat \<Rightarrow> 'a list \<Rightarrow> 'a list" where
  "draw rnd 0 pool = []"
| "draw rnd (Suc m) pool =
     (let j = rnd (Suc m) mod Suc m in pool ! j # draw rnd m (pool[j := pool ! m]))"

definition sample_pool :: "(nat \<Rightarrow> nat) \<Rightarrow> 'a list \<Rightarrow> 'a list" where
  "sample_pool rnd population = draw rnd (length population) population"

definition random_sample :: "externals \<Rightarrow> 'a list \<Rightarrow> 'a list run" where
  "random_sample ext population s =
     (Inr (sample_pool (randbelow ext (entropy s)) population), s\<lparr>entropy := Suc (entropy s)\<rparr>)"

text \<open>\<open>np.concatenate(samples)\<close>: needs at least one array, and arrays only.\<close>

fun elements :: "pyval \<Rightarrow> error + int list" where
  "elements (Array i xs) = Inr xs"
| "elements (Number x) = Inl ValueError"
| "elements EmptyVal = Inl ValueError"

fun concat_elements :: "pyval list \<Rightarrow> error + int list" where
  "concat_elements [] = Inr []"
| "concat_elements (v # vs) =
     (case elements v of
        Inl e \<Rightarrow> Inl e
      | Inr xs \<Rightarrow> (case concat_elements vs of Inl e \<Rightarrow> Inl e | Inr ys \<Rightarrow> Inr (xs @ ys)))"

definition concatenate :: "pyval list \<Rightarrow> pyval run" where
  "concatenate samples s =
     (if samples = [] then (Inl ValueError, s)
      else case concat_elements samples of
             Inl e \<Rightarrow> (Inl e, s)
           | Inr xs \<Rightarrow> (Inr (Array (next_array s) xs), s\<lparr>next_array := Suc (next_array s)\<rparr>))"

text \<open>The comprehension of \<open>Mixture._sample\<close> that hands the remainder out.\<close>

definition add_remainder :: "int \<Rightarrow> int list \<Rightarrow> int list" where
  "add_remainder remainder sample_counts =
     map (\<lambda>(i, sample_count). sample_count + (if int i < remainder then 1 else 0))
       (enumerate 0 sample_counts)"

text \<open>\<open>Mixture._sample(*values)\<close>, given how a component resolves.\<close>

definition Mixture_sample :: "externals \<Rightarrow> (addr \<Rightarrow> pyval run) \<Rightarrow> addr list \<Rightarrow> pyval run" where
  "Mixture_sample ext resolve_value values =
     py_bind (with_Context no_overrides (\<lambda>context.
                if length values = 0 then py_raise ZeroDivisionError
                else py_return (sample_count context mod int (length values),
                       replicate (length values) (sample_count context div int (length values)))))
       (\<lambda>(remainder, sample_counts).
     py_bind (random_sample ext (add_remainder remainder sample_counts))
       (\<lambda>sample_counts.
     py_bind (py_map (\<lambda>(value, sample_count).
                with_Context (no_overrides\<lparr>new_sample_count := Some sample_count\<rparr>)
                  (\<lambda>_. resolve_value value)) (zip values sample_counts))
       concatenate))"

text \<open>\<open>Mixture._resolve\<close>, given the node's own \<open>cache_key\<close> property.\<close>

definition Mixture_resolve ::
  "externals \<Rightarrow> key run \<Rightarrow> (addr \<Rightarrow> pyval run) \<Rightarrow> addr list \<Rightarrow> pyval run" where
  "Mixture_resolve ext self_cache_key resolve_value values =
     with_Context no_overrides (\<lambda>context.
       py_bind self_cache_key (\<lambda>k1 s.
         case cache_lookup context k1 s of
           Some _ \<Rightarrow> py_bind self_cache_key (\<lambda>k2. cache_get context k2) s
         | None \<Rightarrow>
             py_bind (Mixture_sample ext resolve_value values) (\<lambda>value.
             py_bind self_cache_key (\<lambda>k3.
             py_bind (cache_store context k3 value) (\<lambda>_. py_return value))) s))"

text \<open>\<open>~node\<close>, that is \<open>node._resolve()\<close>, by class.\<close>

primrec resolve :: "externals \<Rightarrow> nat \<Rightarrow> addr \<Rightarrow> pyval run" where
  "resolve ext 0 a = py_raise RecursionError"
| "resolve ext (Suc fuel) a = (\<lambda>s.
     case obj_at s a of
       None \<Rightarrow> py_raise InvalidReference s
     | Some (Value v c n) \<Rightarrow>
         (case v of
            Ref r \<Rightarrow> resolve ext fuel r s
          | Num x \<Rightarrow> py_return (Number x) s
          | Empty \<Rightarrow> py_return EmptyVal s)
     | Some (Operation f this other c) \<Rightarrow>
         py_bind (resolve ext fuel this) (\<lambda>this_value.
         py_bind (resolve ext fuel other) (\<lambda>other_value.
           if other_value = EmptyVal then py_lift (apply1 ext f this_value)
           else py_lift (apply2 ext f this_value other_value))) s
     | Some (Distribution f args kwds c n) \<Rightarrow> Distribution_resolve ext f args kwds s
     | Some (Mixture values c n) \<Rightarrow>
         Mixture_resolve ext (Mixture_cache_key (cache_key fuel) values)
           (resolve ext fuel) values s)"

text \<open>
  The constructors. \<open>Operation.__init__\<close> and \<open>Value.__init__\<close> store what they are given;
  \<open>Distribution.__init__\<close> and \<open>Mixture.__init__\<close> do not call \<open>Value.__init__\<close>, so a new
  \<open>Distribution\<close> has the class attribute \<open>constant = True\<close> and a new \<open>Mixture\<close> the
  inherited \<open>constant = None\<close>.
\<close>

definition Value_init :: "content \<Rightarrow> bool option \<Rightarrow> string option \<Rightarrow> addr run" where
  "Value_init v c n = new_obj (Value v c n)"

definition Operation_init :: "fn \<Rightarrow> addr \<Rightarrow> addr \<Rightarrow> addr run" where
  "Operation_init f this other = new_obj (Operation f this other None)"



text \<open>The store after the modules are loaded: the default \<open>other\<close> operand \<open>Value(_empty)\<close>
  of \<open>Operation.__init__\<close> at address 0 and the shared tracer \<open>_tracer = Value(0, name="x")\<close>
  at address 1; no context was established yet.\<close>

definition initial_state :: state where
  "initial_state =
     \<lparr>objs = [Value Empty None None, Value (Num 0) None (Some ''x'')],
      dicts = (\<lambda>_. Map.empty), managers = [], context_var = None,
      next_context = 0, next_dict = 0, next_array = 0, entropy = 0\<rparr>"

text \<open>The same store once the default context has been installed.\<close>

definition default_context :: swungdash_context where
  "default_context =
     \<lparr>ident = 0, cache = 0, cache_rule = ''constant'', sample_count = DEFAULT_SAMPLE_COUNT\<rparr>"

definition started_state :: state where
  "started_state = snd (getcontext initial_state)"

text \<open>A body that leaves every manager object it finds as it is (it may create new ones):
  it neither enters nor exits a manager that existed when it started.\<close>

definition leaves_managers :: "(swungdash_context \<Rightarrow> 'a run) \<Rightarrow> bool" where
  "leaves_managers body \<longleftrightarrow>
     (\<forall>c t. take (length (managers t)) (managers (snd (body c t))) = managers t)"



text \<open>A computation that leaves every manager object it finds as it is.\<close>

definition keeps_managers :: "'a run \<Rightarrow> bool" where
  "keeps_managers r \<longleftrightarrow> (\<forall>t. take (length (managers t)) (managers (snd (r t))) = managers t)"

text \<open>The key of a \<open>Distribution\<close> under sample count \<open>n\<close>, for the statements below.\<close>

abbreviation Distribution_key :: "fn \<Rightarrow> int list \<Rightarrow> (string \<times> int) list \<Rightarrow> int \<Rightarrow> key" where
  "Distribution_key f args kwds n \<equiv>
     CacheKey (Some f) (Some args) (Some (sort_key fst kwds)) (Some n) None"

text \<open>
  An instance of the external collaborators, for concrete runs: every sampler returns
  \<open>size\<close> copies of the state of the random source, \<open>apply1\<close> is the identity, \<open>apply2\<close> is
  equality for the function \<open>Fn 0\<close> (a number 1 or 0 for any two operands, as \<open>operator.eq\<close>
  gives a truth value) and otherwise adds numbers and raises \<open>TypeError\<close> on anything else,
  and every draw below a bound is 0. \<open>example_resolve\<close> is \<open>~d\<close> for
  \<open>d = Distribution(f)\<close> without arguments; \<open>example_scoped m\<close> is
  \<open>with Context(sample_count=m): ~d\<close>.
\<close>

definition example_externals :: externals where
  "example_externals =
     \<lparr>sampler = (\<lambda>f args kwds n e. Inr (replicate (nat n) (int e))),
      apply1 = (\<lambda>f x. Inr x),
      apply2 = (\<lambda>f x y. if f = Fn 0 then Inr (Number (if x = y then 1 else 0))
                         else case (x, y) of (Number a, Number b) \<Rightarrow> Inr (Number (a + b))
                                           | _ \<Rightarrow> Inl TypeError),
      randbelow = (\<lambda>e n. 0)\<rparr>"

definition example_resolve :: "pyval run" where
  "example_resolve = Distribution_resolve example_externals (Fn 0) [] []"

definition example_scoped :: "int \<Rightarrow> pyval run" where
  "example_scoped m =
     with_Context (no_overrides\<lparr>new_sample_count := Some m\<rparr>) (\<lambda>_. example_resolve)"

text \<open>The store after \<open>with Context(sample_count=5): ~d\<close>, and after two more \<open>~d\<close>.\<close>

definition warm_state :: state where
  "warm_state = snd (example_scoped 5 started_state)"

definition twice_state :: state where
  "twice_state = snd (example_resolve (snd (example_resolve warm_state)))"


text \<open>The store after \<open>Value(Operation(f, Value(_empty), Value(1)))\<close> was built, part by part
  (the sentinel's wrapper at address 2, the operation at 4, the outer value at 5), and
  then the unary \<open>Operation(g, Value(1), Value(_empty))\<close> at address 6.\<close>

definition sentinel_state :: state where
  "sentinel_state =
     snd (Operation_init (Fn 1) 3 2
       (snd (Value_init (Ref 4) None None
         (snd (Operation_init (Fn 0) 2 3
           (snd (Value_init (Num 1) None None
             (snd (Value_init Empty None None started_state)))))))))"

text \<open>
  For the reasoning about keys: a computation that, under an active context, leaves the
  node objects and the active context as they are; two stores that show the same node
  objects and the same active sample count; and two computations that, from two such
  stores, have the same outcome and lead to two such stores again.
\<close>

definition keeps_view :: "'a run \<Rightarrow> bool" where
  "keeps_view r \<longleftrightarrow>
     (\<forall>s c. context_var s = Some (Some c) \<longrightarrow>
        objs (snd (r s)) = objs s \<and> context_var (snd (r s)) = Some (Some c))"

definition same_view :: "state \<Rightarrow> state \<Rightarrow> bool" where
  "same_view s t \<longleftrightarrow>
     objs s = objs t \<and>
     (\<exists>c1 c2. context_var s = Some (Some c1) \<and> context_var t = Some (Some c2)
        \<and> sample_count c1 = sample_count c2)"

definition view_related :: "'a run \<Rightarrow> 'a run \<Rightarrow> bool" where
  "view_related r1 r2 \<longleftrightarrow>
     (\<forall>s t. same_view s t \<longrightarrow>
        fst (r1 s) = fst (r2 t) \<and> same_view (snd (r1 s)) (snd (r2 t)))"



section \<open>Verified properties\<close>

lemma started_state_simps:
  "context_var started_state = Some (Some default_context)"
  "next_context started_state = 1"
  "next_dict started_state = 1"
  "objs started_state = objs initial_state"
  "managers started_state = []"
  "next_array started_state = 0"
  "entropy started_state = 0"
  by (simp_all add: started_state_def getcontext_def initial_state_def default_context_def Let_def)

lemma dicts_started_state: "dicts started_state d = Map.empty"
  by (simp add: started_state_def getcontext_def initial_state_def Let_def)

lemma leaves_managers_nth:
  assumes "leaves_managers body" and "m < length (managers t)"
  shows "m < length (managers (snd (body c t)))"
    and "managers (snd (body c t)) ! m = managers t ! m"
proof -
  let ?xs = "managers (snd (body c t))"
  have eq: "take (length (managers t)) ?xs = managers t"
    using assms(1) by (simp add: leaves_managers_def)
  then have "length (take (length (managers t)) ?xs) = length (managers t)" by simp
  then have le: "length (managers t) \<le> length ?xs" by simp
  with assms(2) show "m < length ?xs" by simp
  have "take (length (managers t)) ?xs ! m = ?xs ! m" using assms(2) by simp
  with eq show "?xs ! m = managers t ! m" by simp
qed

lemma with_Context_restores:
  assumes "leaves_managers body"
  shows "context_var (snd (with_Context kw body s)) = Some (fst (getcontext s))"
proof (cases "fst (getcontext s)")
  case None
  then show ?thesis
    by (auto simp: with_Context_def Context_def with_manager_def enter_def Let_def getcontext_def
        split: prod.splits option.splits sum.splits)
next
  case (Some c)
  obtain sv s1 where g: "getcontext s = (sv, s1)" by (cases "getcontext s")
  with Some have sv: "sv = Some c" by simp
  have cv1: "context_var s1 = Some (Some c)" and m1: "managers s1 = managers s"
    using g sv by (auto simp: getcontext_def Let_def split: option.splits)
  define m where "m = length (managers s)"
  define s0 where "s0 = snd (Context kw s)"
  have g0: "getcontext s0 = (Some c, s1\<lparr>managers := managers s @ [\<lparr>kwargs = kw, saved_context = None, new_context = None\<rparr>]\<rparr>)"
    using g sv by (auto simp: s0_def Context_def getcontext_def Let_def split: option.splits)
  obtain new t where e: "enter m s0 = (Inr new, t)" and mt: "m < length (managers t)"
    and st: "saved_context (managers t ! m) = Some c"
    using g0 by (simp add: enter_def m_def s0_def Context_def Let_def setcontext_def)
  obtain r s2 where b: "body new t = (r, s2)" by (cases "body new t")
  have "m < length (managers s2)" "managers s2 ! m = managers t ! m"
    using leaves_managers_nth[OF assms mt, of new] b by simp_all
  then have "context_var (exit m s2) = Some (Some c)"
    using st by (simp add: exit_def setcontext_def)
  moreover have "with_Context kw body s = (r, exit m s2)"
    using e b by (simp add: with_Context_def Context_def with_manager_def m_def s0_def)
  ultimately show ?thesis using Some by simp
qed


lemma with_Context_entry:
  assumes "fst (getcontext s) = Some c"
  shows "context_var (snd (enter (length (managers s)) (snd (Context kw s)))) =
           Some (Some \<lparr>ident = next_context (snd (getcontext s)),
                  cache = (case new_cache kw of Some d \<Rightarrow> d | None \<Rightarrow> cache c),
                  cache_rule = (case new_cache_rule kw of Some r \<Rightarrow> r | None \<Rightarrow> cache_rule c),
                  sample_count = (case new_sample_count kw of Some n \<Rightarrow> n | None \<Rightarrow> sample_count c)\<rparr>)"
    and "with_Context kw body s =
          (case body \<lparr>ident = next_context (snd (getcontext s)),
                  cache = (case new_cache kw of Some d \<Rightarrow> d | None \<Rightarrow> cache c),
                  cache_rule = (case new_cache_rule kw of Some r \<Rightarrow> r | None \<Rightarrow> cache_rule c),
                  sample_count = (case new_sample_count kw of Some n \<Rightarrow> n | None \<Rightarrow> sample_count c)\<rparr>
                (snd (enter (length (managers s)) (snd (Context kw s)))) of
             (r, s2) \<Rightarrow> (r, exit (length (managers s)) s2))"
  using assms
  by (auto simp: with_Context_def Context_def with_manager_def enter_def Let_def getcontext_def
      setcontext_def split: prod.splits option.splits sum.splits)




lemma dicts_exit: "dicts (exit m s) = dicts s"
  by (simp add: exit_def setcontext_def)



lemma leaves_managers_iff: "leaves_managers body \<longleftrightarrow> (\<forall>c. keeps_managers (body c))"
  by (auto simp: leaves_managers_def keeps_managers_def)

lemma keeps_managersI:
  "(\<And>t. take (length (managers t)) (managers (snd (r t))) = managers t) \<Longrightarrow> keeps_managers r"
  by (simp add: keeps_managers_def)

lemma keeps_managersD:
  "keeps_managers r \<Longrightarrow> take (length (managers t)) (managers (snd (r t))) = managers t"
  by (simp add: keeps_managers_def)

lemma keeps_managers_length:
  assumes "keeps_managers r" shows "length (managers t) \<le> length (managers (snd (r t)))"
proof -
  have "length (take (length (managers t)) (managers (snd (r t)))) = length (managers t)"
    using keeps_managersD[OF assms, of t] by simp
  then show ?thesis by simp
qed

lemma keeps_managers_simple [simp]:
  "keeps_managers (py_return x)" "keeps_managers (py_raise e)" "keeps_managers (py_lift v)"
  "keeps_managers (cache_store c k v')" "keeps_managers (cache_get c k)"
  "keeps_managers (call_sampler ext f args kwds n)"
  "keeps_managers (concatenate samples)" "keeps_managers (new_obj ob)"
  by (auto simp: keeps_managers_def py_return_def py_raise_def py_lift_def cache_store_def
      cache_get_def call_sampler_def concatenate_def new_obj_def split: option.splits sum.splits)

lemma keeps_managers_random_sample [simp]: "keeps_managers (random_sample ext xs)"
  by (simp add: keeps_managers_def random_sample_def)

lemma keeps_managers_bind:
  assumes "keeps_managers m" and "\<And>x. keeps_managers (f x)"
  shows "keeps_managers (py_bind m f)"
proof (rule keeps_managersI)
  fix t :: state
  obtain r t1 where m: "m t = (r, t1)" by (cases "m t")
  have k1: "take (length (managers t)) (managers t1) = managers t"
    using keeps_managersD[OF assms(1), of t] m by simp
  have l1: "length (managers t) \<le> length (managers t1)"
    using keeps_managers_length[OF assms(1), of t] m by simp
  show "take (length (managers t)) (managers (snd (py_bind m f t))) = managers t"
  proof (cases r)
    case (Inl e)
    then show ?thesis using m k1 by (simp add: py_bind_def)
  next
    case (Inr x)
    have k2: "take (length (managers t1)) (managers (snd (f x t1))) = managers t1"
      using keeps_managersD[OF assms(2)[of x], of t1] by simp
    have "take (length (managers t)) (managers (snd (f x t1)))
        = take (length (managers t)) (take (length (managers t1)) (managers (snd (f x t1))))"
      using l1 by (simp add: min_absorb1)
    also have "\<dots> = managers t" using k2 k1 by simp
    finally show ?thesis using m Inr by (simp add: py_bind_def)
  qed
qed

lemma keeps_managers_pointwise:
  assumes "\<And>t. \<exists>r'. keeps_managers r' \<and> r t = r' t"
  shows "keeps_managers r"
proof (rule keeps_managersI)
  fix t :: state
  obtain r' where "keeps_managers r'" "r t = r' t" using assms by blast
  then show "take (length (managers t)) (managers (snd (r t))) = managers t"
    using keeps_managersD[of r' t] by simp
qed

lemma keeps_managers_with_Context:
  assumes "\<And>c. keeps_managers (body c)"
  shows "keeps_managers (with_Context kw body)"
proof (rule keeps_managersI)
  fix t :: state
  let ?m = "length (managers t)"
  let ?t0 = "snd (Context kw t)"
  have m0: "managers ?t0 = managers t @ [\<lparr>kwargs = kw, saved_context = None, new_context = None\<rparr>]"
    by (simp add: Context_def)
  obtain r t1 where e: "enter ?m ?t0 = (r, t1)" by (cases "enter ?m ?t0")
  have l1: "length (managers t1) = Suc ?m" and k1: "take ?m (managers t1) = managers t"
    using e m0
    by (auto simp: enter_def Let_def getcontext_def setcontext_def Context_def
        split: option.splits prod.splits if_splits)
  show "take (length (managers t)) (managers (snd (with_Context kw body t))) = managers t"
  proof (cases r)
    case (Inl x)
    then show ?thesis using e k1 by (simp add: with_Context_def with_manager_def Context_def)
  next
    case (Inr new)
    have k2: "take (Suc ?m) (managers (snd (body new t1))) = managers t1"
      using keeps_managersD[OF assms[of new], of t1] l1 by simp
    have "take ?m (managers (snd (body new t1))) = take ?m (take (Suc ?m) (managers (snd (body new t1))))"
      by (simp add: min_absorb1)
    also have "\<dots> = managers t" using k2 k1 by simp
    finally have "take ?m (managers (exit ?m (snd (body new t1)))) = managers t"
      by (simp add: exit_def setcontext_def)
    then show ?thesis using e Inr
      by (simp add: with_Context_def with_manager_def Context_def split_beta)
  qed
qed


lemma keeps_managers_Distribution_cache_key [simp]:
  "keeps_managers (Distribution_cache_key f args kwds)"
  by (simp add: Distribution_cache_key_def keeps_managers_with_Context)

lemma keeps_managers_Distribution_resolve [simp]:
  "keeps_managers (Distribution_resolve ext f args kwds)"
  unfolding Distribution_resolve_def
  apply (rule keeps_managers_with_Context)
  apply (rule keeps_managers_bind)
   apply simp
  apply (rule keeps_managers_pointwise)
  subgoal for c x t
    apply (cases "cache_lookup c x t")
     apply (rule exI[of _ "py_bind (call_sampler ext f args kwds (sample_count c)) (\<lambda>value.
             py_bind (Distribution_cache_key f args kwds) (\<lambda>k3.
             py_bind (cache_store c k3 value) (\<lambda>_. py_return value)))"])
     apply (simp add: keeps_managers_bind)
    apply (rule exI[of _ "py_bind (Distribution_cache_key f args kwds) (\<lambda>k2. cache_get c k2)"])
    apply (simp add: keeps_managers_bind)
    done
  done

lemma Distribution_cache_key_active:
  assumes "context_var s = Some (Some c)"
  shows "fst (Distribution_cache_key f args kwds s) =
           Inr (CacheKey (Some f) (Some args) (Some (sort_key fst kwds)) (Some (sample_count c)) None)"
    and "dicts (snd (Distribution_cache_key f args kwds s)) = dicts s"
    and "context_var (snd (Distribution_cache_key f args kwds s)) = Some (Some c)"
    and "entropy (snd (Distribution_cache_key f args kwds s)) = entropy s"
    and "next_array (snd (Distribution_cache_key f args kwds s)) = next_array s"
    and "objs (snd (Distribution_cache_key f args kwds s)) = objs s"
  using assms
  by (simp_all add: Distribution_cache_key_def with_Context_def Context_def with_manager_def
      enter_def exit_def Let_def getcontext_def setcontext_def py_return_def no_overrides_def)

lemma Distribution_resolve_active:
  assumes "context_var s = Some (Some c)"
  shows "fst (Distribution_resolve ext f args kwds s) =
     (case dicts s (cache c) (CacheKey (Some f) (Some args) (Some (sort_key fst kwds)) (Some (sample_count c)) None) of
        Some v \<Rightarrow> Inr v
      | None \<Rightarrow> (if ''size'' \<in> set (map fst kwds) then Inl TypeError
                 else case sampler ext f args kwds (sample_count c) (entropy s) of
                   Inl e \<Rightarrow> Inl e | Inr xs \<Rightarrow> Inr (Array (next_array s) xs)))"
   and "dicts (snd (Distribution_resolve ext f args kwds s)) =
     (case dicts s (cache c) (CacheKey (Some f) (Some args) (Some (sort_key fst kwds)) (Some (sample_count c)) None) of
        Some v \<Rightarrow> dicts s
      | None \<Rightarrow> (if ''size'' \<in> set (map fst kwds) then dicts s
                 else case sampler ext f args kwds (sample_count c) (entropy s) of
                   Inl e \<Rightarrow> dicts s
                 | Inr xs \<Rightarrow> (dicts s)(cache c := (dicts s (cache c))
                     (CacheKey (Some f) (Some args) (Some (sort_key fst kwds)) (Some (sample_count c)) None
                        \<mapsto> Array (next_array s) xs))))"
   and "context_var (snd (Distribution_resolve ext f args kwds s)) = Some (Some c)"
   and "entropy (snd (Distribution_resolve ext f args kwds s)) =
     (case dicts s (cache c) (CacheKey (Some f) (Some args) (Some (sort_key fst kwds)) (Some (sample_count c)) None) of
        Some v \<Rightarrow> entropy s
      | None \<Rightarrow> (if ''size'' \<in> set (map fst kwds) then entropy s else Suc (entropy s)))"
   and "next_array (snd (Distribution_resolve ext f args kwds s)) =
     (case dicts s (cache c) (CacheKey (Some f) (Some args) (Some (sort_key fst kwds)) (Some (sample_count c)) None) of
        Some v \<Rightarrow> next_array s
      | None \<Rightarrow> (if ''size'' \<in> set (map fst kwds) then next_array s
                 else case sampler ext f args kwds (sample_count c) (entropy s) of
                   Inl e \<Rightarrow> next_array s | Inr xs \<Rightarrow> Suc (next_array s)))"
   and "objs (snd (Distribution_resolve ext f args kwds s)) = objs s"
  using assms
  by (simp_all add: Distribution_resolve_def Distribution_cache_key_def with_Context_def Context_def
      with_manager_def enter_def exit_def Let_def getcontext_def setcontext_def py_return_def
      py_bind_def no_overrides_def cache_lookup_def cache_get_def cache_store_def call_sampler_def
      nth_append
      split: option.splits sum.splits)


lemma entry_state_fields:
  assumes "context_var s = Some (Some c)"
  shows "dicts (snd (enter (length (managers s)) (snd (Context kw s)))) = dicts s"
    and "entropy (snd (enter (length (managers s)) (snd (Context kw s)))) = entropy s"
    and "next_array (snd (enter (length (managers s)) (snd (Context kw s)))) = next_array s"
    and "objs (snd (enter (length (managers s)) (snd (Context kw s)))) = objs s"
  using assms
  by (simp_all add: Context_def enter_def Let_def getcontext_def setcontext_def)

lemma getcontext_active:
  assumes "context_var s = Some (Some c)"
  shows "fst (getcontext s) = Some c" and "snd (getcontext s) = s"
  using assms by (simp_all add: getcontext_def)

lemma exit_fields:
  "entropy (exit m s) = entropy s" "next_array (exit m s) = next_array s" "objs (exit m s) = objs s"
  by (simp_all add: exit_def setcontext_def)

lemma scoped_Distribution_resolve:
  assumes "context_var s = Some (Some c)"
  shows "fst (with_Context (no_overrides\<lparr>new_sample_count := Some m\<rparr>)
              (\<lambda>_. Distribution_resolve ext f args kwds) s) =
     (case dicts s (cache c) (Distribution_key f args kwds m) of
        Some v \<Rightarrow> Inr v
      | None \<Rightarrow> (if ''size'' \<in> set (map fst kwds) then Inl TypeError
                 else case sampler ext f args kwds m (entropy s) of
                   Inl e \<Rightarrow> Inl e | Inr xs \<Rightarrow> Inr (Array (next_array s) xs)))"
   and "dicts (snd (with_Context (no_overrides\<lparr>new_sample_count := Some m\<rparr>)
              (\<lambda>_. Distribution_resolve ext f args kwds) s)) =
     (case dicts s (cache c) (Distribution_key f args kwds m) of
        Some v \<Rightarrow> dicts s
      | None \<Rightarrow> (if ''size'' \<in> set (map fst kwds) then dicts s
                 else case sampler ext f args kwds m (entropy s) of
                   Inl e \<Rightarrow> dicts s
                 | Inr xs \<Rightarrow> (dicts s)(cache c := (dicts s (cache c))
                     (Distribution_key f args kwds m \<mapsto> Array (next_array s) xs))))"
   and "entropy (snd (with_Context (no_overrides\<lparr>new_sample_count := Some m\<rparr>)
              (\<lambda>_. Distribution_resolve ext f args kwds) s)) =
     (case dicts s (cache c) (Distribution_key f args kwds m) of
        Some v \<Rightarrow> entropy s
      | None \<Rightarrow> (if ''size'' \<in> set (map fst kwds) then entropy s else Suc (entropy s)))"
proof -
  let ?T = "snd (enter (length (managers s)) (snd (Context (no_overrides\<lparr>new_sample_count := Some m\<rparr>) s)))"
  let ?N = "\<lparr>ident = next_context s, cache = cache c, cache_rule = cache_rule c, sample_count = m\<rparr>"
  note f = entry_state_fields[OF assms, of "no_overrides\<lparr>new_sample_count := Some m\<rparr>"]
  note g = getcontext_active[OF assms]
  have cv: "context_var ?T = Some (Some ?N)"
    using with_Context_entry(1)[OF g(1), of "no_overrides\<lparr>new_sample_count := Some m\<rparr>"]
    by (simp add: g(2) no_overrides_def)
  have w: "with_Context (no_overrides\<lparr>new_sample_count := Some m\<rparr>)
              (\<lambda>_. Distribution_resolve ext f args kwds) s =
           (fst (Distribution_resolve ext f args kwds ?T),
            exit (length (managers s)) (snd (Distribution_resolve ext f args kwds ?T)))"
    using with_Context_entry(2)[OF g(1), of "no_overrides\<lparr>new_sample_count := Some m\<rparr>"
        "\<lambda>_. Distribution_resolve ext f args kwds"]
    by (simp add: split_beta)
  note d = Distribution_resolve_active[OF cv, of ext f args kwds]
  show "fst (with_Context (no_overrides\<lparr>new_sample_count := Some m\<rparr>)
              (\<lambda>_. Distribution_resolve ext f args kwds) s) =
     (case dicts s (cache c) (Distribution_key f args kwds m) of
        Some v \<Rightarrow> Inr v
      | None \<Rightarrow> (if ''size'' \<in> set (map fst kwds) then Inl TypeError
                 else case sampler ext f args kwds m (entropy s) of
                   Inl e \<Rightarrow> Inl e | Inr xs \<Rightarrow> Inr (Array (next_array s) xs)))"
    by (simp add: w d(1) f split: option.splits sum.splits)
  show "dicts (snd (with_Context (no_overrides\<lparr>new_sample_count := Some m\<rparr>)
              (\<lambda>_. Distribution_resolve ext f args kwds) s)) =
     (case dicts s (cache c) (Distribution_key f args kwds m) of
        Some v \<Rightarrow> dicts s
      | None \<Rightarrow> (if ''size'' \<in> set (map fst kwds) then dicts s
                 else case sampler ext f args kwds m (entropy s) of
                   Inl e \<Rightarrow> dicts s
                 | Inr xs \<Rightarrow> (dicts s)(cache c := (dicts s (cache c))
                     (Distribution_key f args kwds m \<mapsto> Array (next_array s) xs))))"
    by (simp add: w d(2) f dicts_exit split: option.splits sum.splits)
  show "entropy (snd (with_Context (no_overrides\<lparr>new_sample_count := Some m\<rparr>)
              (\<lambda>_. Distribution_resolve ext f args kwds) s)) =
     (case dicts s (cache c) (Distribution_key f args kwds m) of
        Some v \<Rightarrow> entropy s
      | None \<Rightarrow> (if ''size'' \<in> set (map fst kwds) then entropy s else Suc (entropy s)))"
    by (simp add: w d(4) f exit_fields split: option.splits sum.splits)
qed

text \<open>
  Claim C2, as amended. When a \<open>Distribution\<close> node has been resolved under an active
  context, resolving it again under that context returns the very same array object,
  which is the entry cached under the node's key with that context's sample count (a new
  array of the sampling function when the key was absent before). Resolving it in a
  nested scope with another sample count looks up another key: when the cache has no
  entry under that key the sampling function is called afresh with the new size, its new
  array is returned and cached, and the first entry stays; when the cache already has an
  entry under that key, that entry is returned and the sampling function is not called.
\<close>

theorem Distribution_resolve_cached_per_sample_count:
  assumes "context_var s = Some (Some c)"
    and "Distribution_resolve ext f args kwds s = (Inr v1, s1)"
    and "m \<noteq> sample_count c"
  shows "fst (Distribution_resolve ext f args kwds s1) = Inr v1
    \<and> cache_lookup c (Distribution_key f args kwds (sample_count c)) s1 = Some v1
    \<and> (cache_lookup c (Distribution_key f args kwds (sample_count c)) s = None \<longrightarrow>
         (\<exists>xs0. v1 = Array (next_array s) xs0) \<and> next_array s1 = Suc (next_array s))
    \<and> (cache_lookup c (Distribution_key f args kwds m) s1 = None
         \<and> ''size'' \<notin> set (map fst kwds)
         \<and> sampler ext f args kwds m (entropy s1) = Inr xs \<longrightarrow>
         fst (with_Context (no_overrides\<lparr>new_sample_count := Some m\<rparr>)
                (\<lambda>_. Distribution_resolve ext f args kwds) s1) = Inr (Array (next_array s1) xs)
         \<and> entropy (snd (with_Context (no_overrides\<lparr>new_sample_count := Some m\<rparr>)
                (\<lambda>_. Distribution_resolve ext f args kwds) s1)) = Suc (entropy s1)
         \<and> cache_lookup c (Distribution_key f args kwds m)
             (snd (with_Context (no_overrides\<lparr>new_sample_count := Some m\<rparr>)
                (\<lambda>_. Distribution_resolve ext f args kwds) s1)) = Some (Array (next_array s1) xs)
         \<and> cache_lookup c (Distribution_key f args kwds (sample_count c))
             (snd (with_Context (no_overrides\<lparr>new_sample_count := Some m\<rparr>)
                (\<lambda>_. Distribution_resolve ext f args kwds) s1)) = Some v1)
    \<and> (\<forall>w. cache_lookup c (Distribution_key f args kwds m) s1 = Some w \<longrightarrow>
         fst (with_Context (no_overrides\<lparr>new_sample_count := Some m\<rparr>)
                (\<lambda>_. Distribution_resolve ext f args kwds) s1) = Inr w
         \<and> entropy (snd (with_Context (no_overrides\<lparr>new_sample_count := Some m\<rparr>)
                (\<lambda>_. Distribution_resolve ext f args kwds) s1)) = entropy s1
         \<and> dicts (snd (with_Context (no_overrides\<lparr>new_sample_count := Some m\<rparr>)
                (\<lambda>_. Distribution_resolve ext f args kwds) s1)) = dicts s1)"
proof -
  note d = Distribution_resolve_active[OF assms(1), of ext f args kwds]
  have s1: "s1 = snd (Distribution_resolve ext f args kwds s)" and
       v1: "fst (Distribution_resolve ext f args kwds s) = Inr v1"
    using assms(2) by simp_all
  have cv1: "context_var s1 = Some (Some c)" by (simp add: s1 d(3))
  have cached: "dicts s1 (cache c) (Distribution_key f args kwds (sample_count c)) = Some v1"
    using v1 unfolding s1 d(1) d(2)
    by (auto split: option.splits if_splits sum.splits)
  note d1 = Distribution_resolve_active[OF cv1, of ext f args kwds]
  note sc = scoped_Distribution_resolve[OF cv1, of m ext f args kwds]
  have A: "fst (Distribution_resolve ext f args kwds s1) = Inr v1"
    by (simp add: d1(1) cached)
  have E: "cache_lookup c (Distribution_key f args kwds (sample_count c)) s = None \<longrightarrow>
         (\<exists>xs0. v1 = Array (next_array s) xs0) \<and> next_array s1 = Suc (next_array s)"
    using v1 unfolding s1 d(1) d(5) cache_lookup_def
    by (auto split: option.splits if_splits sum.splits)
  have neq: "Distribution_key f args kwds m \<noteq> Distribution_key f args kwds (sample_count c)"
    using assms(3) by simp
  show ?thesis
    using A E cached neq
    by (auto simp: cache_lookup_def sc)
qed

lemma scoped_Distribution_resolve_more:
  assumes "context_var s = Some (Some c)"
  shows "context_var (snd (with_Context (no_overrides\<lparr>new_sample_count := Some m\<rparr>)
              (\<lambda>_. Distribution_resolve ext f args kwds) s)) = Some (Some c)"
    and "next_array (snd (with_Context (no_overrides\<lparr>new_sample_count := Some m\<rparr>)
              (\<lambda>_. Distribution_resolve ext f args kwds) s)) =
     (case dicts s (cache c) (Distribution_key f args kwds m) of
        Some v \<Rightarrow> next_array s
      | None \<Rightarrow> (if ''size'' \<in> set (map fst kwds) then next_array s
                 else case sampler ext f args kwds m (entropy s) of
                   Inl e \<Rightarrow> next_array s | Inr xs \<Rightarrow> Suc (next_array s)))"
proof -
  let ?kw = "no_overrides\<lparr>new_sample_count := Some m\<rparr>"
  let ?T = "snd (enter (length (managers s)) (snd (Context ?kw s)))"
  let ?N = "\<lparr>ident = next_context s, cache = cache c, cache_rule = cache_rule c, sample_count = m\<rparr>"
  note f = entry_state_fields[OF assms, of ?kw]
  note g = getcontext_active[OF assms]
  have lm: "leaves_managers (\<lambda>_. Distribution_resolve ext f args kwds)"
    by (simp add: leaves_managers_iff)
  show "context_var (snd (with_Context ?kw (\<lambda>_. Distribution_resolve ext f args kwds) s)) = Some (Some c)"
    using with_Context_restores[OF lm, of ?kw s] g by simp
  have cv: "context_var ?T = Some (Some ?N)"
    using with_Context_entry(1)[OF g(1), of ?kw] by (simp add: g(2) no_overrides_def)
  have w: "with_Context ?kw (\<lambda>_. Distribution_resolve ext f args kwds) s =
           (fst (Distribution_resolve ext f args kwds ?T),
            exit (length (managers s)) (snd (Distribution_resolve ext f args kwds ?T)))"
    using with_Context_entry(2)[OF g(1), of ?kw "\<lambda>_. Distribution_resolve ext f args kwds"]
    by (simp add: split_beta)
  note d = Distribution_resolve_active[OF cv, of ext f args kwds]
  show "next_array (snd (with_Context ?kw (\<lambda>_. Distribution_resolve ext f args kwds) s)) =
     (case dicts s (cache c) (Distribution_key f args kwds m) of
        Some v \<Rightarrow> next_array s
      | None \<Rightarrow> (if ''size'' \<in> set (map fst kwds) then next_array s
                 else case sampler ext f args kwds m (entropy s) of
                   Inl e \<Rightarrow> next_array s | Inr xs \<Rightarrow> Suc (next_array s)))"
    by (simp add: w d(5) f exit_fields split: option.splits sum.splits)
qed

lemma example_sampler [simp]:
  "sampler example_externals f args kwds n e = Inr (replicate (nat n) (int e))"
  by (simp add: example_externals_def)

lemma warm_state_facts:
  "context_var warm_state = Some (Some default_context)"
  "dicts warm_state = (\<lambda>_. Map.empty)(0 := [Distribution_key (Fn 0) [] [] 5 \<mapsto> Array 0 (replicate 5 0)])"
  "entropy warm_state = 1" "next_array warm_state = 1"
  "fst (example_scoped 5 started_state) = Inr (Array 0 (replicate 5 0))"
proof -
  have cv: "context_var started_state = Some (Some default_context)"
    by (simp add: started_state_simps)
  note a = scoped_Distribution_resolve[OF cv, of 5 example_externals "Fn 0" "[]" "[]"]
  note b = scoped_Distribution_resolve_more[OF cv, of 5 example_externals "Fn 0" "[]" "[]"]
  show "context_var warm_state = Some (Some default_context)"
    by (simp add: warm_state_def example_scoped_def example_resolve_def b(1))
  show "dicts warm_state = (\<lambda>_. Map.empty)(0 := [Distribution_key (Fn 0) [] [] 5 \<mapsto> Array 0 (replicate 5 0)])"
    by (auto simp: warm_state_def example_scoped_def example_resolve_def a(2) dicts_started_state
        started_state_simps default_context_def fun_eq_iff)
  show "entropy warm_state = 1"
    by (simp add: warm_state_def example_scoped_def example_resolve_def a(3) dicts_started_state
        started_state_simps)
  show "next_array warm_state = 1"
    by (simp add: warm_state_def example_scoped_def example_resolve_def b(2) dicts_started_state
        started_state_simps)
  show "fst (example_scoped 5 started_state) = Inr (Array 0 (replicate 5 0))"
    by (simp add: example_scoped_def example_resolve_def a(1) dicts_started_state
        started_state_simps)
qed

lemma once_state_facts:
  "fst (example_resolve warm_state) = Inr (Array 1 (replicate 1000 1))"
  "context_var (snd (example_resolve warm_state)) = Some (Some default_context)"
  "dicts (snd (example_resolve warm_state)) =
     (\<lambda>_. Map.empty)(0 := [Distribution_key (Fn 0) [] [] 5 \<mapsto> Array 0 (replicate 5 0),
                          Distribution_key (Fn 0) [] [] 1000 \<mapsto> Array 1 (replicate 1000 1)])"
  "entropy (snd (example_resolve warm_state)) = 2"
  "next_array (snd (example_resolve warm_state)) = 2"
proof -
  note d = Distribution_resolve_active[OF warm_state_facts(1), of example_externals "Fn 0" "[]" "[]"]
  show "fst (example_resolve warm_state) = Inr (Array 1 (replicate 1000 1))"
    by (simp add: example_resolve_def d(1) warm_state_facts default_context_def DEFAULT_SAMPLE_COUNT_def)
  show "context_var (snd (example_resolve warm_state)) = Some (Some default_context)"
    by (simp add: example_resolve_def d(3))
  show "dicts (snd (example_resolve warm_state)) =
     (\<lambda>_. Map.empty)(0 := [Distribution_key (Fn 0) [] [] 5 \<mapsto> Array 0 (replicate 5 0),
                          Distribution_key (Fn 0) [] [] 1000 \<mapsto> Array 1 (replicate 1000 1)])"
    by (simp add: example_resolve_def d(2) warm_state_facts default_context_def DEFAULT_SAMPLE_COUNT_def)
  show "entropy (snd (example_resolve warm_state)) = 2"
    by (simp add: example_resolve_def d(4) warm_state_facts default_context_def DEFAULT_SAMPLE_COUNT_def)
  show "next_array (snd (example_resolve warm_state)) = 2"
    by (simp add: example_resolve_def d(5) warm_state_facts default_context_def DEFAULT_SAMPLE_COUNT_def)
qed

lemma twice_state_facts:
  "fst (example_resolve (snd (example_resolve warm_state))) = Inr (Array 1 (replicate 1000 1))"
  "context_var twice_state = Some (Some default_context)"
  "dicts twice_state = dicts (snd (example_resolve warm_state))"
  "entropy twice_state = 2" "next_array twice_state = 2"
proof -
  note d = Distribution_resolve_active[OF once_state_facts(2), of example_externals "Fn 0" "[]" "[]"]
  show "fst (example_resolve (snd (example_resolve warm_state))) = Inr (Array 1 (replicate 1000 1))"
    by (simp add: example_resolve_def[symmetric] d(1)[folded example_resolve_def] once_state_facts
        default_context_def DEFAULT_SAMPLE_COUNT_def)
  show "context_var twice_state = Some (Some default_context)"
    by (simp add: twice_state_def d(3)[folded example_resolve_def])
  show "dicts twice_state = dicts (snd (example_resolve warm_state))"
    by (simp add: twice_state_def d(2)[folded example_resolve_def] once_state_facts
        default_context_def DEFAULT_SAMPLE_COUNT_def)
  show "entropy twice_state = 2"
    by (simp add: twice_state_def d(4)[folded example_resolve_def] once_state_facts
        default_context_def DEFAULT_SAMPLE_COUNT_def)
  show "next_array twice_state = 2"
    by (simp add: twice_state_def d(5)[folded example_resolve_def] once_state_facts
        default_context_def DEFAULT_SAMPLE_COUNT_def)
qed

lemma first_state_facts:
  "fst (example_resolve started_state) = Inr (Array 0 (replicate 1000 0))"
  "context_var (snd (example_resolve started_state)) = Some (Some default_context)"
  "dicts (snd (example_resolve started_state)) =
     (\<lambda>_. Map.empty)(0 := [Distribution_key (Fn 0) [] [] 1000 \<mapsto> Array 0 (replicate 1000 0)])"
  "entropy (snd (example_resolve started_state)) = 1"
  "next_array (snd (example_resolve started_state)) = 1"
proof -
  have cv: "context_var started_state = Some (Some default_context)"
    by (simp add: started_state_simps)
  note d = Distribution_resolve_active[OF cv, of example_externals "Fn 0" "[]" "[]"]
  show "fst (example_resolve started_state) = Inr (Array 0 (replicate 1000 0))"
    by (simp add: example_resolve_def d(1) started_state_simps dicts_started_state
        default_context_def DEFAULT_SAMPLE_COUNT_def)
  show "context_var (snd (example_resolve started_state)) = Some (Some default_context)"
    by (simp add: example_resolve_def d(3))
  show "dicts (snd (example_resolve started_state)) =
     (\<lambda>_. Map.empty)(0 := [Distribution_key (Fn 0) [] [] 1000 \<mapsto> Array 0 (replicate 1000 0)])"
    by (auto simp: example_resolve_def d(2) started_state_simps dicts_started_state
        default_context_def DEFAULT_SAMPLE_COUNT_def fun_eq_iff)
  show "entropy (snd (example_resolve started_state)) = 1"
    by (simp add: example_resolve_def d(4) started_state_simps dicts_started_state
        default_context_def DEFAULT_SAMPLE_COUNT_def)
  show "next_array (snd (example_resolve started_state)) = 1"
    by (simp add: example_resolve_def d(5) started_state_simps dicts_started_state
        default_context_def DEFAULT_SAMPLE_COUNT_def)
qed

theorem Distribution_resolve_cached_per_sample_count_witness:
  "context_var started_state = Some (Some default_context)
   \<and> Distribution_resolve example_externals (Fn 0) [] [] started_state =
       (Inr (Array 0 (replicate 1000 0)), snd (example_resolve started_state))
   \<and> 5 \<noteq> sample_count default_context
   \<and> fst (example_resolve (snd (example_resolve started_state))) = Inr (Array 0 (replicate 1000 0))
   \<and> cache_lookup default_context (Distribution_key (Fn 0) [] [] 1000) started_state = None
   \<and> cache_lookup default_context (Distribution_key (Fn 0) [] [] 5)
        (snd (example_resolve started_state)) = None
   \<and> fst (example_scoped 5 (snd (example_resolve started_state))) = Inr (Array 1 (replicate 5 1))
   \<and> cache_lookup default_context (Distribution_key (Fn 0) [] [] 5)
        (snd (example_resolve warm_state)) = Some (Array 0 (replicate 5 0))
   \<and> fst (example_scoped 5 (snd (example_resolve warm_state))) = Inr (Array 0 (replicate 5 0))"
proof -
  have h1: "context_var started_state = Some (Some default_context)"
    by (simp add: started_state_simps)
  have h2: "Distribution_resolve example_externals (Fn 0) [] [] started_state =
       (Inr (Array 0 (replicate 1000 0)), snd (example_resolve started_state))"
    using first_state_facts(1) by (simp add: example_resolve_def prod_eq_iff)
  have h3: "5 \<noteq> sample_count default_context"
    by (simp add: default_context_def DEFAULT_SAMPLE_COUNT_def)
  have h4: "Distribution_resolve example_externals (Fn 0) [] [] warm_state =
       (Inr (Array 1 (replicate 1000 1)), snd (example_resolve warm_state))"
    using once_state_facts(1) by (simp add: example_resolve_def prod_eq_iff)
  have none0: "cache_lookup default_context (Distribution_key (Fn 0) [] [] 1000) started_state = None"
    by (simp add: cache_lookup_def dicts_started_state)
  have none5: "cache_lookup default_context (Distribution_key (Fn 0) [] [] 5)
        (snd (example_resolve started_state)) = None"
    by (simp add: cache_lookup_def first_state_facts default_context_def)
  have some5: "cache_lookup default_context (Distribution_key (Fn 0) [] [] 5)
        (snd (example_resolve warm_state)) = Some (Array 0 (replicate 5 0))"
    by (simp add: cache_lookup_def once_state_facts default_context_def)
  note T1 = Distribution_resolve_cached_per_sample_count [OF h1 h2 h3, of "replicate 5 1"]
  note T2 = Distribution_resolve_cached_per_sample_count
               [OF warm_state_facts(1) h4 h3, of "replicate 5 1"]
  have a: "fst (example_resolve (snd (example_resolve started_state))) = Inr (Array 0 (replicate 1000 0))"
    using T1[THEN conjunct1] by (simp add: example_resolve_def)
  have "fst (with_Context (no_overrides\<lparr>new_sample_count := Some 5\<rparr>)
                (\<lambda>_. Distribution_resolve example_externals (Fn 0) [] [])
                (snd (example_resolve started_state))) =
        Inr (Array (next_array (snd (example_resolve started_state))) (replicate 5 1))"
    using T1[THEN conjunct2, THEN conjunct2, THEN conjunct2, THEN conjunct1] none5
    by (simp add: first_state_facts)
  then have b: "fst (example_scoped 5 (snd (example_resolve started_state))) = Inr (Array 1 (replicate 5 1))"
    by (simp add: example_scoped_def example_resolve_def[symmetric] first_state_facts)
  have "fst (with_Context (no_overrides\<lparr>new_sample_count := Some 5\<rparr>)
                (\<lambda>_. Distribution_resolve example_externals (Fn 0) [] [])
                (snd (example_resolve warm_state))) = Inr (Array 0 (replicate 5 0))"
    using T2[THEN conjunct2, THEN conjunct2, THEN conjunct2, THEN conjunct2] some5
    by simp
  then have c: "fst (example_scoped 5 (snd (example_resolve warm_state))) = Inr (Array 0 (replicate 5 0))"
    by (simp add: example_scoped_def example_resolve_def[symmetric])
  show ?thesis
    by (intro conjI h1 h2 h3 a none0 none5 b some5 c)
qed


text \<open>
  Claim C2 as stated fails when the cache already holds an entry under the key with the
  overridden sample count: after \<open>with Context(sample_count=5): ~d\<close>, then \<open>~d\<close> twice under
  the default context (the same array both times), \<open>with Context(sample_count=5): ~d\<close>
  returns the array cached by the first statement; the random source is where it was, so
  the sampling function, which would have returned other elements in a new array, was
  not called.
\<close>

theorem cached_nested_resolution_does_not_sample:
  "context_var warm_state = Some (Some default_context)
   \<and> fst (example_resolve warm_state) = Inr (Array 1 (replicate 1000 1))
   \<and> fst (example_resolve (snd (example_resolve warm_state))) = Inr (Array 1 (replicate 1000 1))
   \<and> fst (example_scoped 5 twice_state) = Inr (Array 0 (replicate 5 0))
   \<and> entropy (snd (example_scoped 5 twice_state)) = entropy twice_state
   \<and> sampler example_externals (Fn 0) [] [] 5 (entropy twice_state) = Inr (replicate 5 2)
   \<and> fst (example_scoped 5 twice_state) \<noteq> Inr (Array (next_array twice_state) (replicate 5 2))"
proof -
  note a = scoped_Distribution_resolve[OF twice_state_facts(2), of 5 example_externals "Fn 0" "[]" "[]"]
  have 1: "fst (example_scoped 5 twice_state) = Inr (Array 0 (replicate 5 0))"
    by (simp add: example_scoped_def a(1)[folded example_resolve_def] twice_state_facts
        once_state_facts default_context_def)
  have 2: "entropy (snd (example_scoped 5 twice_state)) = entropy twice_state"
    by (simp add: example_scoped_def a(3)[folded example_resolve_def] twice_state_facts
        once_state_facts default_context_def)
  show ?thesis
    using 1 2 by (simp add: warm_state_facts once_state_facts twice_state_facts)
qed








text \<open>
  Claim C8, as amended. Resolving a \<open>Value\<close> whose content is the sentinel returns the
  sentinel itself as an ordinary value and leaves the store as it is. \<open>Operation._resolve\<close>
  relies on it: an operation whose \<open>other\<close> operand is such a value applies its function to
  the resolved \<open>this\<close> alone; and when the \<open>this\<close> operand is such a value, the sentinel is
  handed to the function as its first operand, so whether anything is raised there is
  the function's affair.
\<close>

theorem empty_sentinel_resolves_to_itself:
  assumes "obj_at s a = Some (Value Empty c n)"
  shows "resolve ext (Suc fuel) a s = (Inr EmptyVal, s)
    \<and> (obj_at sbefore op = Some (Operation f this a cop) \<and> resolve ext (Suc fuel) this sbefore = (Inr x, s)
         \<longrightarrow> resolve ext (Suc (Suc fuel)) op sbefore = (apply1 ext f x, s))
    \<and> (obj_at s op = Some (Operation f a other cop) \<and> resolve ext (Suc fuel) other s = (Inr y, safter)
         \<longrightarrow> resolve ext (Suc (Suc fuel)) op s =
               ((if y = EmptyVal then apply1 ext f EmptyVal else apply2 ext f EmptyVal y), safter))"
proof -
  have r: "resolve ext (Suc fuel) a s = (Inr EmptyVal, s)"
    using assms by (simp add: py_return_def)
  show ?thesis
  proof (intro conjI impI)
    show "resolve ext (Suc fuel) a s = (Inr EmptyVal, s)" by (rule r)
  next
    assume h: "obj_at sbefore op = Some (Operation f this a cop) \<and> resolve ext (Suc fuel) this sbefore = (Inr x, s)"
    have "resolve ext (Suc (Suc fuel)) op sbefore =
            py_bind (resolve ext (Suc fuel) this) (\<lambda>this_value.
            py_bind (resolve ext (Suc fuel) a) (\<lambda>other_value.
              if other_value = EmptyVal then py_lift (apply1 ext f this_value)
              else py_lift (apply2 ext f this_value other_value))) sbefore"
      using h by (simp del: resolve.simps add: resolve.simps(2)[of ext "Suc fuel" op])
    then show "resolve ext (Suc (Suc fuel)) op sbefore = (apply1 ext f x, s)"
      using h r by (simp del: resolve.simps add: py_bind_def py_lift_def)
  next
    assume h: "obj_at s op = Some (Operation f a other cop) \<and> resolve ext (Suc fuel) other s = (Inr y, safter)"
    have "resolve ext (Suc (Suc fuel)) op s =
            py_bind (resolve ext (Suc fuel) a) (\<lambda>this_value.
            py_bind (resolve ext (Suc fuel) other) (\<lambda>other_value.
              if other_value = EmptyVal then py_lift (apply1 ext f this_value)
              else py_lift (apply2 ext f this_value other_value))) s"
      using h by (simp del: resolve.simps add: resolve.simps(2)[of ext "Suc fuel" op])
    then show "resolve ext (Suc (Suc fuel)) op s =
               ((if y = EmptyVal then apply1 ext f EmptyVal else apply2 ext f EmptyVal y), safter)"
      using h r by (simp del: resolve.simps add: py_bind_def py_lift_def)
  qed
qed

lemma sentinel_state_objs:
  "objs sentinel_state =
     [Value Empty None None, Value (Num 0) None (Some ''x''), Value Empty None None,
      Value (Num 1) None None, Operation (Fn 0) 2 3 None, Value (Ref 4) None None,
      Operation (Fn 1) 3 2 None]"
  by (simp add: sentinel_state_def Value_init_def Operation_init_def new_obj_def
      started_state_simps initial_state_def)

theorem empty_sentinel_resolves_to_itself_witness:
  "obj_at sentinel_state 2 = Some (Value Empty None None)
   \<and> resolve example_externals (Suc 0) 2 sentinel_state = (Inr EmptyVal, sentinel_state)
   \<and> obj_at sentinel_state 4 = Some (Operation (Fn 0) 2 3 None)
   \<and> obj_at sentinel_state 6 = Some (Operation (Fn 1) 3 2 None)
   \<and> resolve example_externals (Suc 0) 3 sentinel_state = (Inr (Number 1), sentinel_state)
   \<and> resolve example_externals (Suc (Suc 0)) 4 sentinel_state =
        (apply2 example_externals (Fn 0) EmptyVal (Number 1), sentinel_state)
   \<and> resolve example_externals (Suc (Suc 0)) 6 sentinel_state =
        (apply1 example_externals (Fn 1) (Number 1), sentinel_state)"
proof -
  have o2: "obj_at sentinel_state 2 = Some (Value Empty None None)"
    by (simp add: obj_at_def sentinel_state_objs)
  have o4: "obj_at sentinel_state 4 = Some (Operation (Fn 0) 2 3 None)"
    by (simp add: obj_at_def sentinel_state_objs)
  have o6: "obj_at sentinel_state 6 = Some (Operation (Fn 1) 3 2 None)"
    by (simp add: obj_at_def sentinel_state_objs)
  have r3: "resolve example_externals (Suc 0) 3 sentinel_state = (Inr (Number 1), sentinel_state)"
    by (simp add: obj_at_def sentinel_state_objs py_return_def)
  note T1 = empty_sentinel_resolves_to_itself [OF o2, where ext = example_externals and fuel = 0 and sbefore = sentinel_state
      and op = 4 and f = "Fn 0" and this = 3 and cop = None and x = "Number 1" and other = 3
      and y = "Number 1" and safter = sentinel_state]
  note T2 = empty_sentinel_resolves_to_itself [OF o2, where ext = example_externals and fuel = 0 and sbefore = sentinel_state
      and op = 6 and f = "Fn 1" and this = 3 and cop = None and x = "Number 1" and other = 3
      and y = "Number 1" and safter = sentinel_state]
  show ?thesis
    using T1 T2 o2 o4 o6 r3 by simp
qed


text \<open>
  Claim C8 as stated fails: \<open>~Value(_empty)\<close> returns the sentinel normally, and
  \<open>~Value(Operation(f, Value(_empty), Value(1)))\<close>, with the sentinel where the first
  operand is required and \<open>f\<close> the equality of the example, returns a number.
\<close>

theorem empty_sentinel_resolution_returns_normally:
  "obj_at sentinel_state 2 = Some (Value Empty None None)
   \<and> resolve example_externals 1 2 sentinel_state = (Inr EmptyVal, sentinel_state)
   \<and> obj_at sentinel_state 4 = Some (Operation (Fn 0) 2 3 None)
   \<and> resolve example_externals 3 5 sentinel_state = (Inr (Number 0), sentinel_state)"
  by (simp add: obj_at_def sentinel_state_objs py_return_def py_bind_def py_lift_def
      example_externals_def numeral_3_eq_3)


lemma keeps_view_simple [simp]:
  "keeps_view (py_return x)" "keeps_view (py_raise e)" "keeps_view (py_lift v)"
  by (simp_all add: keeps_view_def py_return_def py_raise_def py_lift_def)









lemma keeps_view_Distribution_cache_key [simp]:
  "keeps_view (Distribution_cache_key f args kwds)"
  by (simp add: keeps_view_def Distribution_cache_key_active)




lemma view_relatedD:
  "view_related r1 r2 \<Longrightarrow> same_view s t \<Longrightarrow>
     fst (r1 s) = fst (r2 t) \<and> same_view (snd (r1 s)) (snd (r2 t))"
  by (simp add: view_related_def)

lemma view_related_simple [simp]:
  "view_related (py_return x) (py_return x)" "view_related (py_raise e) (py_raise e)"
  "view_related (py_lift v) (py_lift v)"
  by (simp_all add: view_related_def py_return_def py_raise_def py_lift_def)



lemma view_related_with_Context:
  assumes rel: "\<And>c1 c2. sample_count c1 = sample_count c2 \<Longrightarrow> view_related (body c1) (body c2)"
    and km: "\<And>c. keeps_managers (body c)"
  shows "view_related (with_Context kw body) (with_Context kw body)"
  unfolding view_related_def
proof (intro allI impI)
  fix s t :: state
  assume v: "same_view s t"
  then obtain c1 c2 where cs: "context_var s = Some (Some c1)" and ct: "context_var t = Some (Some c2)"
    and sc: "sample_count c1 = sample_count c2" and ob: "objs s = objs t"
    by (auto simp: same_view_def)
  note gs = getcontext_active[OF cs] and gt = getcontext_active[OF ct]
  note fs = entry_state_fields[OF cs, of kw] and ft = entry_state_fields[OF ct, of kw]
  let ?Ts = "snd (enter (length (managers s)) (snd (Context kw s)))"
  let ?Tt = "snd (enter (length (managers t)) (snd (Context kw t)))"
  let ?Ns = "\<lparr>ident = next_context (snd (getcontext s)),
                  cache = (case new_cache kw of Some d \<Rightarrow> d | None \<Rightarrow> cache c1),
                  cache_rule = (case new_cache_rule kw of Some r \<Rightarrow> r | None \<Rightarrow> cache_rule c1),
                  sample_count = (case new_sample_count kw of Some n \<Rightarrow> n | None \<Rightarrow> sample_count c1)\<rparr>"
  let ?Nt = "\<lparr>ident = next_context (snd (getcontext t)),
                  cache = (case new_cache kw of Some d \<Rightarrow> d | None \<Rightarrow> cache c2),
                  cache_rule = (case new_cache_rule kw of Some r \<Rightarrow> r | None \<Rightarrow> cache_rule c2),
                  sample_count = (case new_sample_count kw of Some n \<Rightarrow> n | None \<Rightarrow> sample_count c2)\<rparr>"
  have cvs: "context_var ?Ts = Some (Some ?Ns)" by (rule with_Context_entry(1)[OF gs(1)])
  have cvt: "context_var ?Tt = Some (Some ?Nt)" by (rule with_Context_entry(1)[OF gt(1)])
  have scN: "sample_count ?Ns = sample_count ?Nt" using sc by (simp split: option.splits)
  have vT: "same_view ?Ts ?Tt"
    unfolding same_view_def using cvs cvt scN ob fs(4) ft(4) by simp
  note b = view_relatedD[OF rel[OF scN] vT]
  have lm: "leaves_managers body" using km by (simp add: leaves_managers_iff)
  have rs: "context_var (snd (with_Context kw body s)) = Some (Some c1)"
    using with_Context_restores[OF lm, of kw s] gs by simp
  have rt: "context_var (snd (with_Context kw body t)) = Some (Some c2)"
    using with_Context_restores[OF lm, of kw t] gt by simp
  have os: "objs (snd (with_Context kw body s)) = objs (snd (body ?Ns ?Ts))"
    by (simp add: with_Context_entry(2)[OF gs(1)] split_beta exit_fields)
  have ot: "objs (snd (with_Context kw body t)) = objs (snd (body ?Nt ?Tt))"
    by (simp add: with_Context_entry(2)[OF gt(1)] split_beta exit_fields)
  have fs': "fst (with_Context kw body s) = fst (body ?Ns ?Ts)"
    by (simp add: with_Context_entry(2)[OF gs(1)] split_beta)
  have ft': "fst (with_Context kw body t) = fst (body ?Nt ?Tt)"
    by (simp add: with_Context_entry(2)[OF gt(1)] split_beta)
  show "fst (with_Context kw body s) = fst (with_Context kw body t) \<and>
        same_view (snd (with_Context kw body s)) (snd (with_Context kw body t))"
    using b rs rt os ot fs' ft' sc by (simp add: same_view_def)
qed


lemma view_related_Distribution_cache_key [simp]:
  "view_related (Distribution_cache_key f args kwds) (Distribution_cache_key f args kwds)"
  unfolding Distribution_cache_key_def
  by (rule view_related_with_Context) simp_all

















lemma add_remainder_replicate:
  assumes "0 \<le> r" and "r < int k"
  shows "add_remainder r (replicate k q) =
           replicate (nat r) (q + 1) @ replicate (k - nat r) q"
proof (rule nth_equalityI)
  show "length (add_remainder r (replicate k q)) =
        length (replicate (nat r) (q + 1) @ replicate (k - nat r) q)"
    using assms by (simp add: add_remainder_def)
next
  fix i assume "i < length (add_remainder r (replicate k q))"
  then have i: "i < k" by (simp add: add_remainder_def)
  then show "add_remainder r (replicate k q) ! i =
        (replicate (nat r) (q + 1) @ replicate (k - nat r) q) ! i"
    using assms by (auto simp: add_remainder_def nth_enumerate_eq nth_append)
qed

lemma mset_draw:
  "m \<le> length pool \<Longrightarrow> mset (draw rnd m pool) = mset (take m pool)"
proof (induction m arbitrary: pool)
  case 0
  then show ?case by simp
next
  case (Suc m)
  define j where "j = rnd (Suc m) mod Suc m"
  have j: "j \<le> m" by (simp add: j_def less_Suc_eq_le[symmetric])
  have len: "m < length pool" using Suc.prems by simp
  have IH: "mset (draw rnd m (pool[j := pool ! m])) = mset (take m (pool[j := pool ! m]))"
    using Suc.IH[of "pool[j := pool ! m]"] Suc.prems by simp
  have "add_mset (pool ! j) (mset (take m (pool[j := pool ! m]))) = mset (take (Suc m) pool)"
  proof (cases "j = m")
    case True
    then show ?thesis using len by (simp add: take_Suc_conv_app_nth)
  next
    case False
    then have jm: "j < m" using j by simp
    have t: "take m (pool[j := pool ! m]) = (take m pool)[j := pool ! m]"
      by (simp add: take_update_swap)
    have jl: "j < length (take m pool)" using jm len by simp
    have "mset ((take m pool)[j := pool ! m]) =
            add_mset (pool ! m) (mset (take m pool) - {#take m pool ! j#})"
      using jl by (simp add: mset_update)
    moreover have "take m pool ! j = pool ! j" using jm by simp
    moreover have "pool ! j \<in># mset (take m pool)"
      using jl jm by (metis in_multiset_in_set nth_mem nth_take)
    ultimately show ?thesis
      using len by (simp add: t take_Suc_conv_app_nth)
  qed
  then show ?case using IH by (simp add: j_def Let_def)
qed

lemma mset_sample_pool: "mset (sample_pool rnd xs) = mset xs"
  by (simp add: sample_pool_def mset_draw)

lemma length_sample_pool: "length (sample_pool rnd xs) = length xs"
  using mset_sample_pool[of rnd xs] by (metis size_mset)

lemma sum_list_sample_pool: "sum_list (sample_pool rnd xs) = sum_list (xs :: int list)"
  using mset_sample_pool[of rnd xs] by (metis sum_mset_sum_list)

lemma sum_list_allocation:
  assumes "0 < k"
  shows "sum_list (add_remainder (n mod int k) (replicate k (n div int k))) = n"
proof -
  let ?r = "n mod int k" and ?q = "n div int k"
  have r: "0 \<le> ?r" "?r < int k" using assms by simp_all
  then have le: "nat ?r \<le> k" by linarith
  have "sum_list (add_remainder ?r (replicate k ?q)) =
          int (nat ?r) * (?q + 1) + int (k - nat ?r) * ?q"
    by (simp add: add_remainder_replicate[OF r] sum_list_replicate)
  also have "\<dots> = ?r * (?q + 1) + (int k - ?r) * ?q"
    using r le by (simp add: of_nat_diff)
  also have "\<dots> = int k * ?q + ?r" by (simp add: algebra_simps)
  also have "\<dots> = n" by simp
  finally show ?thesis .
qed

lemma concat_elements_lengths:
  assumes "list_all2 (\<lambda>sample cnt. \<exists>i xs. sample = Array i xs \<and> int (length xs) = cnt) samples counts"
  shows "\<exists>xs. concat_elements samples = Inr xs \<and> int (length xs) = sum_list counts"
  using assms
  by (induction rule: list_all2_induct) auto


lemma Mixture_sample_stages:
  assumes "context_var s = Some (Some c)" and "vs \<noteq> []"
  shows "\<exists>t. objs t = objs s \<and> dicts t = dicts s \<and> context_var t = Some (Some c)
           \<and> entropy t = Suc (entropy s) \<and> next_array t = next_array s
           \<and> Mixture_sample ext rv vs s =
               py_bind (py_map (\<lambda>(value, sample_count).
                          with_Context (no_overrides\<lparr>new_sample_count := Some sample_count\<rparr>)
                            (\<lambda>_. rv value))
                        (zip vs (sample_pool (randbelow ext (entropy s))
                           (add_remainder (sample_count c mod int (length vs))
                              (replicate (length vs) (sample_count c div int (length vs)))))))
                 concatenate t"
  using assms
  by (intro exI[of _ "snd (random_sample ext ([]::int list)
                       (snd (with_Context no_overrides (\<lambda>_. py_return ()) s)))"])
     (simp add: Mixture_sample_def random_sample_def with_Context_def Context_def with_manager_def
        enter_def exit_def Let_def getcontext_def setcontext_def py_return_def py_bind_def
        no_overrides_def)

text \<open>
  Claim C3. For a mixture of \<open>k \<ge> 1\<close> components under an active sample count \<open>n\<close>, the
  allocation before the shuffle is \<open>n // k + 1\<close> for \<open>n % k\<close> components and \<open>n // k\<close> for the
  other \<open>k - n % k\<close>; whatever the random source draws, the shuffled list is a permutation
  of it, has \<open>k\<close> entries and sums to \<open>n\<close>. \<open>_sample\<close> resolves the components, each in a
  scope with its count from the shuffled list, and concatenates: if every component
  resolved to an array whose length is its count, the result is a new array of exactly
  \<open>n\<close> elements.
\<close>

theorem Mixture_sample_allocation:
  assumes "context_var s = Some (Some c)" and "vs \<noteq> []"
  shows "add_remainder (sample_count c mod int (length vs))
           (replicate (length vs) (sample_count c div int (length vs)))
         = replicate (nat (sample_count c mod int (length vs)))
             (sample_count c div int (length vs) + 1)
           @ replicate (length vs - nat (sample_count c mod int (length vs)))
               (sample_count c div int (length vs))
    \<and> mset (sample_pool rnd (add_remainder (sample_count c mod int (length vs))
                (replicate (length vs) (sample_count c div int (length vs)))))
        = mset (add_remainder (sample_count c mod int (length vs))
                (replicate (length vs) (sample_count c div int (length vs))))
    \<and> length (sample_pool rnd (add_remainder (sample_count c mod int (length vs))
                (replicate (length vs) (sample_count c div int (length vs))))) = length vs
    \<and> sum_list (sample_pool rnd (add_remainder (sample_count c mod int (length vs))
                (replicate (length vs) (sample_count c div int (length vs))))) = sample_count c
    \<and> (\<exists>t. objs t = objs s \<and> dicts t = dicts s \<and> context_var t = Some (Some c)
           \<and> entropy t = Suc (entropy s) \<and> next_array t = next_array s
           \<and> Mixture_sample ext rv vs s =
               py_bind (py_map (\<lambda>(value, sample_count).
                          with_Context (no_overrides\<lparr>new_sample_count := Some sample_count\<rparr>)
                            (\<lambda>_. rv value))
                        (zip vs (sample_pool (randbelow ext (entropy s))
                           (add_remainder (sample_count c mod int (length vs))
                              (replicate (length vs) (sample_count c div int (length vs)))))))
                 concatenate t
           \<and> (\<forall>samples u.
                 py_map (\<lambda>(value, sample_count).
                          with_Context (no_overrides\<lparr>new_sample_count := Some sample_count\<rparr>)
                            (\<lambda>_. rv value))
                        (zip vs (sample_pool (randbelow ext (entropy s))
                           (add_remainder (sample_count c mod int (length vs))
                              (replicate (length vs) (sample_count c div int (length vs))))))
                   t = (Inr samples, u)
                 \<and> list_all2 (\<lambda>sample cnt. \<exists>i xs. sample = Array i xs \<and> int (length xs) = cnt)
                      samples
                      (sample_pool (randbelow ext (entropy s))
                           (add_remainder (sample_count c mod int (length vs))
                              (replicate (length vs) (sample_count c div int (length vs)))))
                 \<longrightarrow> (\<exists>xs. Mixture_sample ext rv vs s =
                             (Inr (Array (next_array u) xs), u\<lparr>next_array := Suc (next_array u)\<rparr>)
                          \<and> int (length xs) = sample_count c)))"
proof -
  let ?k = "length vs"
  let ?c0 = "add_remainder (sample_count c mod int ?k) (replicate ?k (sample_count c div int ?k))"
  have k: "0 < ?k" using assms(2) by simp
  have r: "0 \<le> sample_count c mod int ?k" "sample_count c mod int ?k < int ?k"
    using k by simp_all
  have A: "?c0 = replicate (nat (sample_count c mod int ?k)) (sample_count c div int ?k + 1)
           @ replicate (?k - nat (sample_count c mod int ?k)) (sample_count c div int ?k)"
    by (rule add_remainder_replicate[OF r])
  have l0: "length ?c0 = ?k" by (simp add: add_remainder_def)
  have B: "mset (sample_pool rnd ?c0) = mset ?c0" by (rule mset_sample_pool)
  have C: "length (sample_pool rnd ?c0) = ?k" by (simp add: length_sample_pool l0)
  have D: "sum_list (sample_pool rnd ?c0) = sample_count c" for rnd
    by (simp add: sum_list_sample_pool sum_list_allocation[OF k])
  obtain t where t: "objs t = objs s" "dicts t = dicts s" "context_var t = Some (Some c)"
      "entropy t = Suc (entropy s)" "next_array t = next_array s"
      and eq: "Mixture_sample ext rv vs s =
               py_bind (py_map (\<lambda>(value, sample_count).
                          with_Context (no_overrides\<lparr>new_sample_count := Some sample_count\<rparr>)
                            (\<lambda>_. rv value))
                        (zip vs (sample_pool (randbelow ext (entropy s)) ?c0)))
                 concatenate t"
    using Mixture_sample_stages[OF assms, of ext rv] by blast
  have E: "\<exists>xs. Mixture_sample ext rv vs s =
                  (Inr (Array (next_array u) xs), u\<lparr>next_array := Suc (next_array u)\<rparr>)
               \<and> int (length xs) = sample_count c"
    if pm: "py_map (\<lambda>(value, sample_count).
                          with_Context (no_overrides\<lparr>new_sample_count := Some sample_count\<rparr>)
                            (\<lambda>_. rv value))
                        (zip vs (sample_pool (randbelow ext (entropy s)) ?c0)) t = (Inr samples, u)"
      and la: "list_all2 (\<lambda>sample cnt. \<exists>i xs. sample = Array i xs \<and> int (length xs) = cnt)
                 samples (sample_pool (randbelow ext (entropy s)) ?c0)"
    for samples u
  proof -
    obtain xs where xs: "concat_elements samples = Inr xs"
        "int (length xs) = sum_list (sample_pool (randbelow ext (entropy s)) ?c0)"
      using concat_elements_lengths[OF la] by blast
    have "length samples = ?k"
      using list_all2_lengthD[OF la] length_sample_pool[of "randbelow ext (entropy s)" ?c0] l0
      by simp
    then have ne: "samples \<noteq> []" using k by auto
    have "Mixture_sample ext rv vs s =
            (Inr (Array (next_array u) xs), u\<lparr>next_array := Suc (next_array u)\<rparr>)"
      unfolding eq using pm xs(1) ne by (simp add: py_bind_def concatenate_def)
    then show ?thesis using xs(2) D by auto
  qed
  show ?thesis
    apply (intro conjI)
        apply (rule A)
       apply (rule B)
      apply (rule C)
     apply (rule D)
    apply (rule exI[of _ t])
    using t eq E apply blast
    done
qed

end
